theory Spec2Isabelle
  imports Main "HOL-Library.AList" "HOL-Library.Sublist"
begin

section \<open>Strings, bytes and the Python built-ins the checker uses\<close>

text \<open>
  A Python \<open>str\<close> is a sequence of Unicode code points, a \<open>bytes\<close> object a sequence of
  octets. \<open>ustr\<close> turns an ASCII literal of the source into the \<open>str\<close> it denotes.
\<close>

type_synonym str = "nat list"
type_synonym bytes = "char list"

definition ustr :: "string \<Rightarrow> str" where
  "ustr s = map of_char s"

text \<open>
  \<open>bytes.decode()\<close>: strict UTF-8. A malformed sequence (a stray continuation byte,
  an overlong form, a surrogate, a code point above U+10FFFF, a truncated sequence) raises
  \<open>UnicodeDecodeError\<close>, which is \<open>None\<close> here.
\<close>

definition cont :: "nat \<Rightarrow> bool" where
  "cont b \<longleftrightarrow> 128 \<le> b \<and> b \<le> 191"

fun utf8 :: "nat list \<Rightarrow> str option" where
  "utf8 [] = Some []"
| "utf8 (b # bs) =
     (if b < 128 then map_option ((#) b) (utf8 bs)
      else if 194 \<le> b \<and> b \<le> 223 then
        (case bs of
           b1 # r \<Rightarrow>
             if cont b1 then map_option ((#) ((b - 192) * 64 + (b1 - 128))) (utf8 r)
             else None
         | _ \<Rightarrow> None)
      else if 224 \<le> b \<and> b \<le> 239 then
        (case bs of
           b1 # b2 # r \<Rightarrow>
             if cont b1 \<and> cont b2 \<and> (b = 224 \<longrightarrow> 160 \<le> b1) \<and> (b = 237 \<longrightarrow> b1 \<le> 159)
             then map_option ((#) ((b - 224) * 4096 + (b1 - 128) * 64 + (b2 - 128))) (utf8 r)
             else None
         | _ \<Rightarrow> None)
      else if 240 \<le> b \<and> b \<le> 244 then
        (case bs of
           b1 # b2 # b3 # r \<Rightarrow>
             if cont b1 \<and> cont b2 \<and> cont b3 \<and> (b = 240 \<longrightarrow> 144 \<le> b1)
                \<and> (b = 244 \<longrightarrow> b1 \<le> 143)
             then map_option
                    ((#) ((b - 240) * 262144 + (b1 - 128) * 4096 + (b2 - 128) * 64 + (b3 - 128)))
                    (utf8 r)
             else None
         | _ \<Rightarrow> None)
      else None)"

definition decode :: "bytes \<Rightarrow> str option" where
  "decode bs = utf8 (map of_char bs)"

text \<open>
  \<open>str.strip()\<close> without an argument removes the leading and the trailing characters for
  which \<open>str.isspace\<close> holds.
\<close>

definition isspace :: "nat \<Rightarrow> bool" where
  "isspace c \<longleftrightarrow>
     (9 \<le> c \<and> c \<le> 13) \<or> (28 \<le> c \<and> c \<le> 32) \<or> c = 133 \<or> c = 160 \<or> c = 5760
     \<or> (8192 \<le> c \<and> c \<le> 8202) \<or> c = 8232 \<or> c = 8233 \<or> c = 8239 \<or> c = 8287
     \<or> c = 12288"

definition strip :: "str \<Rightarrow> str" where
  "strip s = rev (dropWhile isspace (rev (dropWhile isspace s)))"

text \<open>
  \<open>re.sub(r"Z$", repl, s)\<close>. Without the MULTILINE flag \<open>$\<close> matches at the end of the
  string and just before a newline that is the last character, so the pattern matches a
  final \<open>Z\<close> and a \<open>Z\<close> followed by one final newline, and nothing else.
\<close>

definition re_sub_Z_end :: "str \<Rightarrow> str \<Rightarrow> str" where
  "re_sub_Z_end repl s =
     (case rev s of
        c # r \<Rightarrow>
          if c = 90 then rev r @ repl
          else if c = 10 then
            (case r of
               c' # r' \<Rightarrow> if c' = 90 then rev r' @ repl @ [10] else s
             | [] \<Rightarrow> s)
          else s
      | [] \<Rightarrow> s)"

section \<open>Exceptions, collaborators and the trace of external calls\<close>

text \<open>
  Every exception of the source is a value. \<open>CheckerQueryError\<close> carries its message, if
  it has one, and the exception it was raised \<open>from\<close>. \<open>OtherError\<close> stands for any
  exception class of a collaborator that the checker does not name.
\<close>

datatype exn =
    AssertionError
  | KeyError str
  | ValueError
  | UnicodeDecodeError
  | CalledProcessError int
  | OtherError string
  | CheckerQueryError "string option" exn

fun is_CheckerQueryError :: "exn \<Rightarrow> bool" where
  "is_CheckerQueryError (CheckerQueryError _ _) = True"
| "is_CheckerQueryError _ = False"

text \<open>
  Modelled from the spec: \<open>ExternalGitRef\<close> of \<open>lib/externaldata.py\<close>, constructed
  positionally as (url, commit, tag, branch, version, timestamp); the structured
  timestamp is left abstract as \<open>'dt\<close>.
\<close>

record 'dt ExternalGitRef =
  url :: str
  commit :: "str option"
  tag :: "str option"
  branch :: "str option"
  version :: "str option"
  timestamp :: "'dt option"

text \<open>
  The external-data record: a plain \<open>ExternalData\<close> or an \<open>ExternalGitRepo\<close>, each with its
  \<open>checker_data\<close> dictionary, an association list read with \<open>map_of\<close>; the git variant
  also has its current reference.
\<close>

datatype 'dt external_data =
    ExternalData "(str \<times> str) list"
  | ExternalGitRepo "(str \<times> str) list" "'dt ExternalGitRef"

fun checker_data :: "'dt external_data \<Rightarrow> (str \<times> str) list" where
  "checker_data (ExternalData cd) = cd"
| "checker_data (ExternalGitRepo cd cur) = cd"

text \<open>Every call that leaves the module is recorded, with its arguments, in a trace.\<close>

datatype 'dt event =
    HttpGet str
  | Run "str list" bytes
  | UpdateVersion "'dt external_data" str str bool
  | FetchRemote "'dt ExternalGitRef"
  | SetNewVersion "'dt external_data" "'dt ExternalGitRef"

type_synonym 'dt trace = "'dt event list"

text \<open>
  The collaborators are parameters. Each one sees the trace so far, so that its answer may
  depend on everything that happened before the call.
  \<^item> \<open>should_check\<close>: the eligibility test of the checker base class;
  \<^item> \<open>session_get\<close>: the HTTP GET with the read of the body; it returns the body or raises;
  \<^item> \<open>NETWORK_ERRORS\<close>: the exception classes of \<open>lib\<close> that count as transport errors;
  \<^item> \<open>process\<close>: the external process, giving its exit status, standard output and
    standard error for an argument vector and an input, or the exception raised when it
    could not be run to its end;
  \<^item> \<open>fromisoformat\<close>: \<open>datetime.fromisoformat\<close>, \<open>None\<close> where it raises \<open>ValueError\<close>;
  \<^item> \<open>update_version\<close>, \<open>fetch_remote\<close>, \<open>set_new_version\<close>: the collaborators that
    record the outcome; \<open>Some e\<close> and \<open>Inl e\<close> are a raised exception.
\<close>

record 'dt env =
  should_check :: "'dt external_data \<Rightarrow> bool"
  session_get :: "'dt trace \<Rightarrow> str \<Rightarrow> exn + bytes"
  NETWORK_ERRORS :: "exn \<Rightarrow> bool"
  process :: "'dt trace \<Rightarrow> str list \<Rightarrow> bytes \<Rightarrow> exn + int \<times> bytes \<times> bytes"
  fromisoformat :: "str \<Rightarrow> 'dt option"
  update_version :: "'dt trace \<Rightarrow> 'dt external_data \<Rightarrow> str \<Rightarrow> str \<Rightarrow> bool \<Rightarrow> exn option"
  fetch_remote :: "'dt trace \<Rightarrow> 'dt ExternalGitRef \<Rightarrow> exn + 'dt ExternalGitRef"
  set_new_version :: "'dt trace \<Rightarrow> 'dt external_data \<Rightarrow> 'dt ExternalGitRef \<Rightarrow> exn option"

text \<open>
  Modelled from the spec: \<open>utils.Command(argv).run(data)\<close> of \<open>lib/utils.py\<close>. It runs the
  process once on the input and returns its standard output and standard error; a
  nonzero exit status is raised as \<open>CalledProcessError\<close>, and an exception of the run
  itself propagates.
\<close>

definition Command_run ::
  "'dt env \<Rightarrow> str list \<Rightarrow> bytes \<Rightarrow> 'dt trace \<Rightarrow> (exn + bytes \<times> bytes) \<times> 'dt trace" where
  "Command_run env argv data t =
     (case process env t argv data of
        Inl e \<Rightarrow> Inl e
      | Inr (returncode, stdout, stderr) \<Rightarrow>
          if returncode \<noteq> 0 then Inl (CalledProcessError returncode)
          else Inr (stdout, stderr),
      t @ [Run argv data])"

section \<open>The Query Evaluator\<close>

text \<open>The post-filter of the source; 34 is the code point of the double quote.\<close>

definition typecheck_q :: str where
  "typecheck_q =
     ustr ''.|type as $rt | if $rt=='' @ [34] @ ustr ''string'' @ [34] @ ustr '' or $rt==''
       @ [34] @ ustr ''number'' @ [34] @ ustr '' then . else error($rt) end''"

definition var_args :: "(str \<times> str) list option \<Rightarrow> str list" where
  "var_args variables =
     (case variables of
        None \<Rightarrow> []
      | Some vs \<Rightarrow> concat (map (\<lambda>(var_name, var_value). [ustr ''--arg'', var_name, var_value]) vs))"

definition jq_cmd :: "str \<Rightarrow> (str \<times> str) list option \<Rightarrow> str list" where
  "jq_cmd query variables =
     [ustr ''jq''] @ var_args variables
       @ [ustr ''-r'', ustr ''-e'',
          ustr ''( '' @ query @ ustr '' ) | ( '' @ typecheck_q @ ustr '' )'']"

text \<open>
  Only \<open>CalledProcessError\<close> is caught and raised again as \<open>CheckerQueryError\<close>; any other
  exception of the run, and the \<open>UnicodeDecodeError\<close> of \<open>decode\<close>, propagate.
\<close>

definition query_json ::
  "'dt env \<Rightarrow> str \<Rightarrow> bytes \<Rightarrow> (str \<times> str) list option \<Rightarrow> 'dt trace \<Rightarrow> (exn + str) \<times> 'dt trace" where
  "query_json env query data variables t =
     (case Command_run env (jq_cmd query variables) data t of
        (Inl err, t') \<Rightarrow>
          (case err of
             CalledProcessError returncode \<Rightarrow>
               Inl (CheckerQueryError (Some ''Error running jq'') err)
           | _ \<Rightarrow> Inl err,
           t')
      | (Inr (jq_stdout, _), t') \<Rightarrow>
          (case decode jq_stdout of
             None \<Rightarrow> (Inl UnicodeDecodeError, t')
           | Some s \<Rightarrow> (Inr (strip s), t')))"

section \<open>The Sequential Query Resolver\<close>

text \<open>
  The \<open>results\<close> dictionary keeps insertion order (its \<open>items()\<close> become the \<open>--arg\<close>
  options in that order), so it is an association list: an assignment to a new key
  appends, an assignment to a key already there replaces the value in place. A query is
  skipped when it is falsy: \<open>None\<close> or the empty string.
\<close>

fun query_sequence_loop ::
  "'dt env \<Rightarrow> bytes \<Rightarrow> (str \<times> str option) list \<Rightarrow> (str \<times> str) list \<Rightarrow> 'dt trace
     \<Rightarrow> (exn + (str \<times> str) list) \<times> 'dt trace" where
  "query_sequence_loop env json_data [] results t = (Inr results, t)"
| "query_sequence_loop env json_data ((result_key, None) # queries) results t =
     query_sequence_loop env json_data queries results t"
| "query_sequence_loop env json_data ((result_key, Some query) # queries) results t =
     (if query = [] then query_sequence_loop env json_data queries results t
      else
        (case query_json env query json_data (Some results) t of
           (Inl e, t') \<Rightarrow> (Inl e, t')
         | (Inr v, t') \<Rightarrow>
             query_sequence_loop env json_data queries (AList.update result_key v results) t'))"

definition query_sequence ::
  "'dt env \<Rightarrow> bytes \<Rightarrow> (str \<times> str option) list \<Rightarrow> 'dt trace
     \<Rightarrow> (exn + (str \<times> str) list) \<times> 'dt trace" where
  "query_sequence env json_data queries t = query_sequence_loop env json_data queries [] t"

section \<open>The Timestamp Normalizer\<close>

definition parse_timestamp :: "'dt env \<Rightarrow> str option \<Rightarrow> exn + 'dt option" where
  "parse_timestamp env date_string =
     (case date_string of
        None \<Rightarrow> Inr None
      | Some s \<Rightarrow>
          (case fromisoformat env (re_sub_Z_end (ustr ''+00:00'') s) of
             None \<Rightarrow> Inl (CheckerQueryError (Some ''Failed to parse timestamp'') ValueError)
           | Some d \<Rightarrow> Inr (Some d)))"

section \<open>The checker\<close>

text \<open>
  \<open>CHECKER_DATA_SCHEMA\<close> as a predicate on a configuration. The values of a configuration
  are strings here, which is what the schema asks of each property it names; what is left
  is \<open>required\<close> and \<open>anyOf\<close>.
\<close>

definition CHECKER_DATA_SCHEMA :: "(str \<times> str) list \<Rightarrow> bool" where
  "CHECKER_DATA_SCHEMA cd \<longleftrightarrow>
     map_of cd (ustr ''url'') \<noteq> None
     \<and> ((map_of cd (ustr ''version-query'') \<noteq> None
          \<and> map_of cd (ustr ''url-query'') \<noteq> None)
        \<or> map_of cd (ustr ''tag-query'') \<noteq> None)"

text \<open>
  \<open>_check_data\<close>, on a plain \<open>ExternalData\<close> with configuration \<open>cd\<close>. The list of queries is
  built before \<open>query_sequence\<close> is called, so a missing \<open>version-query\<close> or \<open>url-query\<close>
  raises \<open>KeyError\<close> before any query runs.
\<close>

definition check_data ::
  "'dt env \<Rightarrow> bytes \<Rightarrow> (str \<times> str) list \<Rightarrow> 'dt trace \<Rightarrow> (exn + unit) \<times> 'dt trace" where
  "check_data env json_data cd t =
     (case map_of cd (ustr ''version-query'') of
        None \<Rightarrow> (Inl (KeyError (ustr ''version-query'')), t)
      | Some version_query \<Rightarrow>
     (case map_of cd (ustr ''url-query'') of
        None \<Rightarrow> (Inl (KeyError (ustr ''url-query'')), t)
      | Some url_query \<Rightarrow>
     (case query_sequence env json_data
             [(ustr ''tag'', map_of cd (ustr ''tag-query'')),
              (ustr ''commit'', map_of cd (ustr ''commit-query'')),
              (ustr ''version'', Some version_query),
              (ustr ''url'', Some url_query)] t of
        (Inl e, t') \<Rightarrow> (Inl e, t')
      | (Inr results, t') \<Rightarrow>
     (case map_of results (ustr ''version'') of
        None \<Rightarrow> (Inl (KeyError (ustr ''version'')), t')
      | Some latest_version \<Rightarrow>
     (case map_of results (ustr ''url'') of
        None \<Rightarrow> (Inl (KeyError (ustr ''url'')), t')
      | Some latest_url \<Rightarrow>
          (case update_version env t' (ExternalData cd) latest_version latest_url False of
             Some e \<Rightarrow> Inl e
           | None \<Rightarrow> Inr (),
           t' @ [UpdateVersion (ExternalData cd) latest_version latest_url False]))))))"

text \<open>
  \<open>_check_git\<close>, on an \<open>ExternalGitRepo\<close> with configuration \<open>cd\<close> and current reference
  \<open>cur\<close>. The arguments of \<open>ExternalGitRef\<close> are evaluated from left to right: the lookup of
  \<open>tag\<close> comes before the parse of the timestamp.
\<close>

definition check_git ::
  "'dt env \<Rightarrow> bytes \<Rightarrow> (str \<times> str) list \<Rightarrow> 'dt ExternalGitRef \<Rightarrow> 'dt trace
     \<Rightarrow> (exn + unit) \<times> 'dt trace" where
  "check_git env json_data cd cur t =
     (case map_of cd (ustr ''tag-query'') of
        None \<Rightarrow> (Inl (KeyError (ustr ''tag-query'')), t)
      | Some tag_query \<Rightarrow>
     (case query_sequence env json_data
             [(ustr ''tag'', Some tag_query),
              (ustr ''commit'', map_of cd (ustr ''commit-query'')),
              (ustr ''version'', map_of cd (ustr ''version-query'')),
              (ustr ''timestamp'', map_of cd (ustr ''timestamp-query''))] t of
        (Inl e, t') \<Rightarrow> (Inl e, t')
      | (Inr results, t') \<Rightarrow>
     (case map_of results (ustr ''tag'') of
        None \<Rightarrow> (Inl (KeyError (ustr ''tag'')), t')
      | Some tg \<Rightarrow>
     (case parse_timestamp env (map_of results (ustr ''timestamp'')) of
        Inl e \<Rightarrow> (Inl e, t')
      | Inr ts \<Rightarrow>
          (let new_version =
                 \<lparr>url = url cur, commit = map_of results (ustr ''commit''), tag = Some tg,
                  branch = None, version = map_of results (ustr ''version''), timestamp = ts\<rparr>
           in if commit new_version = None then
                (case fetch_remote env t' new_version of
                   Inl e \<Rightarrow> (Inl e, t' @ [FetchRemote new_version])
                 | Inr fetched \<Rightarrow>
                     (case set_new_version env (t' @ [FetchRemote new_version])
                             (ExternalGitRepo cd cur) fetched of
                        Some e \<Rightarrow> Inl e
                      | None \<Rightarrow> Inr (),
                      t' @ [FetchRemote new_version, SetNewVersion (ExternalGitRepo cd cur) fetched]))
              else
                (case set_new_version env t' (ExternalGitRepo cd cur) new_version of
                   Some e \<Rightarrow> Inl e
                 | None \<Rightarrow> Inr (),
                 t' @ [SetNewVersion (ExternalGitRepo cd cur) new_version]))))))"

text \<open>
  \<open>check\<close>: the assertion, the fetch, the branch on the variant. An exception of the fetch
  that is one of \<open>NETWORK_ERRORS\<close> is raised again as \<open>CheckerQueryError\<close>; any other one
  propagates as it is.
\<close>

definition check :: "'dt env \<Rightarrow> 'dt external_data \<Rightarrow> 'dt trace \<Rightarrow> (exn + unit) \<times> 'dt trace" where
  "check env external_data t =
     (if \<not> should_check env external_data then (Inl AssertionError, t)
      else
        (case map_of (checker_data external_data) (ustr ''url'') of
           None \<Rightarrow> (Inl (KeyError (ustr ''url'')), t)
         | Some json_url \<Rightarrow>
             (case session_get env t json_url of
                Inl err \<Rightarrow>
                  (if NETWORK_ERRORS env err then Inl (CheckerQueryError None err) else Inl err,
                   t @ [HttpGet json_url])
              | Inr json_data \<Rightarrow>
                  (case external_data of
                     ExternalGitRepo cd cur \<Rightarrow>
                       check_git env json_data cd cur (t @ [HttpGet json_url])
                   | ExternalData cd \<Rightarrow>
                       check_data env json_data cd (t @ [HttpGet json_url])))))"

section \<open>Example collaborators\<close>

text \<open>
  A fixed environment on which the theorems below are run. The document is the one of the
  plain-flow scenario; the process answers the queries \<open>.v\<close>, \<open>.u\<close>, \<open>.t\<close>, \<open>.c\<close>, \<open>.d\<close> and
  \<open>.n\<close> and exits with status 5 on every other one; timestamps are seconds since the epoch.
\<close>

definition quoted :: "string \<Rightarrow> string" where
  "quoted s = CHR 0x22 # s @ [CHR 0x22]"

definition example_json :: bytes where
  "example_json =
     ''{'' @ quoted ''v'' @ '':'' @ quoted ''1.2.3'' @ '','' @ quoted ''u'' @ '':''
       @ quoted ''https://x/1.2.3.tgz'' @ ''}''"

definition example_filter :: "string \<Rightarrow> str" where
  "example_filter q = ustr ''( '' @ ustr q @ ustr '' ) | ( '' @ typecheck_q @ ustr '' )''"

definition example_jq :: "int trace \<Rightarrow> str list \<Rightarrow> bytes \<Rightarrow> exn + int \<times> bytes \<times> bytes" where
  "example_jq t argv data =
     (if argv = [] then Inr (2, [], ''usage'')
      else if last argv = example_filter ''.v'' then Inr (0, ''1.2.3'' @ [CHR 0x0A], [])
      else if last argv = example_filter ''.u'' then
        Inr (0, ''https://x/1.2.3.tgz'' @ [CHR 0x0A], [])
      else if last argv = example_filter ''.t'' then Inr (0, ''v2.0'' @ [CHR 0x0A], [])
      else if last argv = example_filter ''.c'' then Inr (0, ''abcd1234'' @ [CHR 0x0A], [])
      else if last argv = example_filter ''.d'' then
        Inr (0, ''2023-05-01T00:00:00Z'' @ [CHR 0x0A], [])
      else if last argv = example_filter ''.n'' then Inr (0, ''not-a-date'' @ [CHR 0x0A], [])
      else Inr (5, [], ''jq: error''))"

definition example_should_check :: "int external_data \<Rightarrow> bool" where
  "example_should_check ed = True"

definition example_get :: "int trace \<Rightarrow> str \<Rightarrow> exn + bytes" where
  "example_get t u = Inr example_json"

definition example_network_error :: "exn \<Rightarrow> bool" where
  "example_network_error e \<longleftrightarrow> e = OtherError ''ClientError''"

definition example_fromisoformat :: "str \<Rightarrow> int option" where
  "example_fromisoformat s =
     (if s = ustr ''2023-05-01T00:00:00+00:00'' then Some 1682899200 else None)"

definition example_update_version ::
  "int trace \<Rightarrow> int external_data \<Rightarrow> str \<Rightarrow> str \<Rightarrow> bool \<Rightarrow> exn option" where
  "example_update_version t ed v u follow_redirects = None"

definition example_fetch_remote :: "int trace \<Rightarrow> int ExternalGitRef \<Rightarrow> exn + int ExternalGitRef" where
  "example_fetch_remote t r = Inr (r\<lparr>commit := Some (ustr ''abcd1234'')\<rparr>)"

definition example_set_new_version ::
  "int trace \<Rightarrow> int external_data \<Rightarrow> int ExternalGitRef \<Rightarrow> exn option" where
  "example_set_new_version t ed r = None"

definition example_env :: "int env" where
  "example_env =
     \<lparr>should_check = example_should_check, session_get = example_get,
      NETWORK_ERRORS = example_network_error, process = example_jq,
      fromisoformat = example_fromisoformat, update_version = example_update_version,
      fetch_remote = example_fetch_remote, set_new_version = example_set_new_version\<rparr>"

definition failing_get :: "int trace \<Rightarrow> str \<Rightarrow> exn + bytes" where
  "failing_get t u = Inl (OtherError ''ClientError'')"

definition offline_env :: "int env" where
  "offline_env = example_env\<lparr>session_get := failing_get\<rparr>"

definition never_check :: "int external_data \<Rightarrow> bool" where
  "never_check ed = False"

definition ineligible_env :: "int env" where
  "ineligible_env = example_env\<lparr>should_check := never_check\<rparr>"

text \<open>
  Two configurations: the one of the plain-flow scenario, and one that names a tag query
  only, which the schema accepts.
\<close>

definition plain_config :: "(str \<times> str) list" where
  "plain_config =
     [(ustr ''url'', ustr ''https://x/v.json''), (ustr ''version-query'', ustr ''.v''),
      (ustr ''url-query'', ustr ''.u'')]"

definition tag_only_config :: "(str \<times> str) list" where
  "tag_only_config = [(ustr ''url'', ustr ''https://x/v.json''), (ustr ''tag-query'', ustr ''.t'')]"

text \<open>
  More configurations: a plain one whose version query is the empty string, and three git
  ones; and a current git reference.
\<close>

definition empty_version_config :: "(str \<times> str) list" where
  "empty_version_config =
     [(ustr ''url'', ustr ''https://x/v.json''), (ustr ''version-query'', []),
      (ustr ''url-query'', ustr ''.u'')]"

definition git_tag_config :: "(str \<times> str) list" where
  "git_tag_config = [(ustr ''url'', ustr ''https://x/v.json''), (ustr ''tag-query'', ustr ''.t'')]"

definition git_commit_config :: "(str \<times> str) list" where
  "git_commit_config =
     [(ustr ''url'', ustr ''https://x/v.json''), (ustr ''tag-query'', ustr ''.t''),
      (ustr ''commit-query'', ustr ''.c'')]"

definition git_bad_timestamp_config :: "(str \<times> str) list" where
  "git_bad_timestamp_config =
     [(ustr ''url'', ustr ''https://x/v.json''), (ustr ''tag-query'', ustr ''.t''),
      (ustr ''timestamp-query'', ustr ''.n'')]"

definition example_ref :: "int ExternalGitRef" where
  "example_ref =
     \<lparr>url = ustr ''https://g/r.git'', commit = Some (ustr ''00000000''),
      tag = Some (ustr ''v1.0''), branch = None, version = None, timestamp = None\<rparr>"

text \<open>
  A document with a boolean, and a process that reads a program as the query processor
  does when a \<open>#\<close> stands outside every string literal: the comment runs from the \<open>#\<close> to
  the end of the line. It answers the program \<open>( .b ) \<close> on that document and exits with
  status 5 on anything else.
\<close>

definition bool_json :: bytes where
  "bool_json = ''{'' @ quoted ''b'' @ '':true}''"

definition before_comment :: "str \<Rightarrow> str" where
  "before_comment program = takeWhile (\<lambda>c. c \<noteq> 35) program"

definition commenting_jq :: "int trace \<Rightarrow> str list \<Rightarrow> bytes \<Rightarrow> exn + int \<times> bytes \<times> bytes" where
  "commenting_jq t argv data =
     (if argv \<noteq> [] \<and> before_comment (last argv) = ustr ''( .b ) '' \<and> data = bool_json
      then Inr (0, ''true'' @ [CHR 0x0A], [])
      else Inr (5, [], ''jq: error''))"

definition comment_env :: "int env" where
  "comment_env = example_env\<lparr>process := commenting_jq\<rparr>"

section \<open>Evaluation\<close>

text \<open>
  The same predicate with the code points below 256 decided first, as the equation by
  which \<open>isspace\<close> is evaluated.
\<close>

lemma isspace_code [code]:
  "isspace c =
     (if c < 256 then (9 \<le> c \<and> c \<le> 13) \<or> (28 \<le> c \<and> c \<le> 32) \<or> c = 133 \<or> c = 160
      else c = 5760 \<or> (8192 \<le> c \<and> c \<le> 8202) \<or> c = 8232 \<or> c = 8233 \<or> c = 8239
           \<or> c = 8287 \<or> c = 12288)"
  by (auto simp: isspace_def)

section \<open>The trace and the keys of a run of the resolver\<close>

lemma Command_run_trace: "snd (Command_run env argv data t) = t @ [Run argv data]"
  by (simp add: Command_run_def)

lemma query_json_trace:
  "snd (query_json env query data variables t) = t @ [Run (jq_cmd query variables) data]"
proof -
  obtain r t' where c: "Command_run env (jq_cmd query variables) data t = (r, t')"
    by (cases "Command_run env (jq_cmd query variables) data t")
  then have "t' = t @ [Run (jq_cmd query variables) data]"
    using Command_run_trace [of env "jq_cmd query variables" data t] by simp
  with c show ?thesis
    by (simp add: query_json_def split: sum.splits prod.splits option.splits exn.splits)
qed

lemma loop_append:
  "query_sequence_loop env d (pre @ post) results t =
     (case query_sequence_loop env d pre results t of
        (Inl e, t') \<Rightarrow> (Inl e, t')
      | (Inr results', t') \<Rightarrow> query_sequence_loop env d post results' t')"
proof (induction env d pre results t rule: query_sequence_loop.induct)
  case (1 env json_data results t)
  show ?case by simp
next
  case (2 env json_data result_key queries results t)
  then show ?case by simp
next
  case (3 env json_data result_key query queries results t)
  show ?case
  proof (cases "query = []")
    case True
    with 3 show ?thesis by simp
  next
    case False
    show ?thesis
    proof (cases "query_json env query json_data (Some results) t")
      case (Pair r t')
      show ?thesis
      proof (cases r)
        case (Inl e)
        with Pair False show ?thesis by simp
      next
        case (Inr v)
        with Pair False 3(2) [OF False Pair [symmetric] Inr] show ?thesis by simp
      qed
    qed
  qed
qed

lemma loop_keys:
  "query_sequence_loop env d plan results t = (Inr results', t') \<Longrightarrow>
   fst ` set results' = fst ` set results \<union> {k. \<exists>q. (k, Some q) \<in> set plan \<and> q \<noteq> []}"
proof (induction env d plan results t rule: query_sequence_loop.induct)
  case (1 env json_data results t)
  then show ?case by simp
next
  case (2 env json_data result_key queries results t)
  then show ?case by auto
next
  case (3 env json_data result_key query queries results t)
  show ?case
  proof (cases "query = []")
    case True
    with 3 show ?thesis by auto
  next
    case False
    obtain r t1 where qj: "query_json env query json_data (Some results) t = (r, t1)"
      by (cases "query_json env query json_data (Some results) t")
    with 3(3) False obtain v where r: "r = Inr v"
      by (cases r) auto
    from 3(3) False qj r have
      "query_sequence_loop env json_data queries (AList.update result_key v results) t1 = (Inr results', t')"
      by simp
    from 3(2) [OF False qj [symmetric] r this]
    have "fst ` set results' = fst ` set (AList.update result_key v results) \<union> {k. \<exists>q. (k, Some q) \<in> set queries \<and> q \<noteq> []}" .
    moreover have "fst ` set (AList.update result_key v results) = insert result_key (fst ` set results)"
      by (simp add: AList.dom_update)
    ultimately show ?thesis using False by auto
  qed
qed

lemma loop_trace_runs:
  "query_sequence_loop env d plan results t = (r, t') \<Longrightarrow>
   \<exists>rs. t' = t @ rs \<and> (\<forall>e \<in> set rs. \<exists>argv. e = Run argv d)"
proof (induction env d plan results t rule: query_sequence_loop.induct)
  case (1 env json_data results t)
  then show ?case by simp
next
  case (2 env json_data result_key queries results t)
  then show ?case by simp
next
  case (3 env json_data result_key query queries results t)
  show ?case
  proof (cases "query = []")
    case True
    with 3 show ?thesis by simp
  next
    case False
    obtain r1 t1 where qj: "query_json env query json_data (Some results) t = (r1, t1)"
      by (cases "query_json env query json_data (Some results) t")
    then have t1: "t1 = t @ [Run (jq_cmd query (Some results)) json_data]"
      using query_json_trace [of env query json_data "Some results" t] by simp
    show ?thesis
    proof (cases r1)
      case (Inl e)
      with 3(3) False qj have "t' = t1" by simp
      with t1 show ?thesis by auto
    next
      case (Inr v)
      with 3(3) False qj have
        "query_sequence_loop env json_data queries (AList.update result_key v results) t1 = (r, t')"
        by simp
      from 3(2) [OF False qj [symmetric] Inr this]
      obtain rs where "t' = t1 @ rs" "\<forall>e \<in> set rs. \<exists>argv. e = Run argv json_data" by blast
      with t1 show ?thesis by auto
    qed
  qed
qed

lemma query_sequence_split:
  assumes "query_sequence env json_data pre t = (Inr results, t1)"
  shows "query_sequence env json_data (pre @ post) t = query_sequence_loop env json_data post results t1"
  using assms by (simp add: query_sequence_def loop_append)

section \<open>Abort on failure\<close>

text \<open>
  Claim C3. Let the entries \<open>pre\<close> of a plan have been evaluated without failure, giving
  the mapping \<open>results\<close>, and let the evaluator fail with \<open>e\<close> on the next entry to be
  evaluated. Then the resolver fails with the same \<open>e\<close> for the whole plan, whatever the
  remaining entries \<open>post\<close> are: no mapping is returned, and the trace ends with the call of
  the failing query, so nothing of \<open>post\<close> has been evaluated.
\<close>

theorem query_sequence_aborts_on_failure:
  assumes "query_sequence env json_data pre t = (Inr results, t1)"
    and "query \<noteq> []"
    and "fst (query_json env query json_data (Some results) t1) = Inl e"
  shows "query_sequence env json_data (pre @ (result_key, Some query) # post) t =
           (Inl e, t1 @ [Run (jq_cmd query (Some results)) json_data])"
proof -
  obtain r t2 where qj: "query_json env query json_data (Some results) t1 = (r, t2)"
    by (cases "query_json env query json_data (Some results) t1")
  with assms(3) have r: "r = Inl e" by simp
  from qj have t2: "t2 = t1 @ [Run (jq_cmd query (Some results)) json_data]"
    using query_json_trace [of env query json_data "Some results" t1] by simp
  have "query_sequence env json_data (pre @ (result_key, Some query) # post) t =
          query_sequence_loop env json_data ((result_key, Some query) # post) results t1"
    by (rule query_sequence_split [OF assms(1)])
  also have "\<dots> = (Inl e, t2)"
    using assms(2) qj r by simp
  finally show ?thesis using t2 by simp
qed

theorem query_sequence_aborts_on_failure_witness:
  "query_sequence example_env example_json
     [(ustr ''version'', Some (ustr ''.v'')), (ustr ''bad'', Some (ustr ''.zz'')),
      (ustr ''url'', Some (ustr ''.u''))] [] =
   (Inl (CheckerQueryError (Some ''Error running jq'') (CalledProcessError 5)),
    [Run (jq_cmd (ustr ''.v'') (Some [])) example_json,
     Run (jq_cmd (ustr ''.zz'') (Some [(ustr ''version'', ustr ''1.2.3'')])) example_json])"
proof -
  have h1: "query_sequence example_env example_json [(ustr ''version'', Some (ustr ''.v''))] [] =
              (Inr [(ustr ''version'', ustr ''1.2.3'')],
               [Run (jq_cmd (ustr ''.v'') (Some [])) example_json])"
    by code_simp
  have h2: "ustr ''.zz'' \<noteq> []"
    by code_simp
  have h3: "fst (query_json example_env (ustr ''.zz'') example_json
                  (Some [(ustr ''version'', ustr ''1.2.3'')])
                  [Run (jq_cmd (ustr ''.v'') (Some [])) example_json]) =
            Inl (CheckerQueryError (Some ''Error running jq'') (CalledProcessError 5))"
    by code_simp
  show ?thesis
    using query_sequence_aborts_on_failure [OF h1 h2 h3, of "ustr ''bad''" "[(ustr ''url'', Some (ustr ''.u''))]"]
    by simp
qed

section \<open>Threading of earlier results\<close>

lemma var_args_sublist:
  "(name, v) \<in> set vs \<Longrightarrow> sublist [ustr ''--arg'', name, v] (var_args (Some vs))"
proof (induction vs)
  case Nil
  then show ?case by simp
next
  case (Cons p vs)
  obtain n' v' where p: "p = (n', v')" by (cases p)
  have step: "var_args (Some (p # vs)) = [ustr ''--arg'', n', v'] @ var_args (Some vs)"
    by (simp add: var_args_def p)
  show ?case
  proof (cases "(name, v) = p")
    case True
    with p have "n' = name" "v' = v" by simp_all
    with step have "var_args (Some (p # vs)) = [] @ [ustr ''--arg'', name, v] @ var_args (Some vs)"
      by simp
    then show ?thesis unfolding sublist_def by blast
  next
    case False
    with Cons.prems have "(name, v) \<in> set vs" by simp
    from Cons.IH [OF this] obtain ps ss where
      "var_args (Some vs) = ps @ [ustr ''--arg'', name, v] @ ss"
      unfolding sublist_def by blast
    with step have
      "var_args (Some (p # vs)) = ([ustr ''--arg'', n', v'] @ ps) @ [ustr ''--arg'', name, v] @ ss"
      by simp
    then show ?thesis unfolding sublist_def by blast
  qed
qed

lemma jq_cmd_sublist:
  assumes "(name, v) \<in> set vs"
  shows "sublist [ustr ''--arg'', name, v] (jq_cmd query (Some vs))"
proof -
  from var_args_sublist [OF assms] obtain ps ss where
    "var_args (Some vs) = ps @ [ustr ''--arg'', name, v] @ ss"
    unfolding sublist_def by blast
  then have "jq_cmd query (Some vs) =
      ([ustr ''jq''] @ ps) @ [ustr ''--arg'', name, v]
        @ (ss @ [ustr ''-r'', ustr ''-e'',
                 ustr ''( '' @ query @ ustr '' ) | ( '' @ typecheck_q @ ustr '' )''])"
    by (simp add: jq_cmd_def)
  then show ?thesis unfolding sublist_def by blast
qed

lemma length_var_args: "length (var_args (Some vs)) = 3 * length vs"
  by (induction vs) (auto simp: var_args_def)

lemma jq_cmd_variables_differ:
  assumes "vs \<noteq> []"
  shows "jq_cmd query (Some vs) \<noteq> jq_cmd query (Some [])"
proof
  assume "jq_cmd query (Some vs) = jq_cmd query (Some [])"
  then have "length (jq_cmd query (Some vs)) = length (jq_cmd query (Some []))" by simp
  then have "length (var_args (Some vs)) = length (var_args (Some ([] :: (str \<times> str) list)))"
    by (simp add: jq_cmd_def)
  then have "length vs = 0" by (simp add: length_var_args)
  with assms show False by simp
qed

lemma query_sequence_first_call:
  assumes "query \<noteq> []"
  shows "\<exists>r rest. query_sequence env json_data ((result_key, Some query) # plan) t =
           (r, t @ Run (jq_cmd query (Some [])) json_data # rest)"
proof -
  obtain r1 t1 where qj: "query_json env query json_data (Some []) t = (r1, t1)"
    by (cases "query_json env query json_data (Some []) t")
  then have t1: "t1 = t @ [Run (jq_cmd query (Some [])) json_data]"
    using query_json_trace [of env query json_data "Some []" t] by simp
  show ?thesis
  proof (cases r1)
    case (Inl e)
    with assms qj t1 have "query_sequence env json_data ((result_key, Some query) # plan) t =
        (Inl e, t @ Run (jq_cmd query (Some [])) json_data # [])"
      by (simp add: query_sequence_def)
    then show ?thesis by blast
  next
    case (Inr v)
    obtain r t' where l: "query_sequence_loop env json_data plan (AList.update result_key v []) t1 = (r, t')"
      by (cases "query_sequence_loop env json_data plan (AList.update result_key v []) t1")
    from loop_trace_runs [OF l] obtain rs where "t' = t1 @ rs" by blast
    with t1 have "t' = t @ Run (jq_cmd query (Some [])) json_data # rs" by simp
    moreover from assms qj Inr l have
      "query_sequence env json_data ((result_key, Some query) # plan) t = (r, t')"
      by (simp add: query_sequence_def)
    ultimately show ?thesis by blast
  qed
qed

text \<open>
  Claim C1. Let the entries \<open>pre\<close> of a plan have been evaluated, giving the accumulated
  mapping \<open>results\<close>, and let the next entry have a non-empty query. Then the resolver
  calls the evaluator on that query with exactly \<open>results\<close> as the variables, and goes on
  with the returned string stored under the entry's key; the call is recorded in the
  trace; every binding of \<open>results\<close> is handed to the process as \<open>--arg name value\<close>, so
  the query can read it under its name. The order decides what is visible: the same entry
  put first in the plan is evaluated with no variable at all, which is another command as
  soon as \<open>results\<close> is not empty.
\<close>

theorem query_sequence_threads_results:
  assumes "query_sequence env json_data pre t = (Inr results, t1)" and "query \<noteq> []"
  shows "query_sequence env json_data (pre @ (result_key, Some query) # post) t =
           (case query_json env query json_data (Some results) t1 of
              (Inl e, t2) \<Rightarrow> (Inl e, t2)
            | (Inr v, t2) \<Rightarrow>
                query_sequence_loop env json_data post (AList.update result_key v results) t2)
       \<and> snd (query_json env query json_data (Some results) t1) =
           t1 @ [Run (jq_cmd query (Some results)) json_data]
       \<and> (\<forall>(name, v) \<in> set results.
             sublist [ustr ''--arg'', name, v] (jq_cmd query (Some results)))
       \<and> (\<forall>v. map_of (AList.update result_key v results) result_key = Some v)
       \<and> (\<exists>r rest. query_sequence env json_data ((result_key, Some query) # pre @ post) t =
             (r, t @ Run (jq_cmd query (Some [])) json_data # rest))
       \<and> (results \<noteq> [] \<longrightarrow> jq_cmd query (Some results) \<noteq> jq_cmd query (Some []))"
proof (intro conjI)
  have "query_sequence env json_data (pre @ (result_key, Some query) # post) t =
          query_sequence_loop env json_data ((result_key, Some query) # post) results t1"
    by (rule query_sequence_split [OF assms(1)])
  then show "query_sequence env json_data (pre @ (result_key, Some query) # post) t =
           (case query_json env query json_data (Some results) t1 of
              (Inl e, t2) \<Rightarrow> (Inl e, t2)
            | (Inr v, t2) \<Rightarrow>
                query_sequence_loop env json_data post (AList.update result_key v results) t2)"
    using assms(2) by simp
next
  show "snd (query_json env query json_data (Some results) t1) =
           t1 @ [Run (jq_cmd query (Some results)) json_data]"
    by (rule query_json_trace)
next
  show "\<forall>(name, v) \<in> set results.
             sublist [ustr ''--arg'', name, v] (jq_cmd query (Some results))"
    using jq_cmd_sublist by blast
next
  show "\<forall>v. map_of (AList.update result_key v results) result_key = Some v"
    by (simp add: AList.update_conv')
next
  show "\<exists>r rest. query_sequence env json_data ((result_key, Some query) # pre @ post) t =
             (r, t @ Run (jq_cmd query (Some [])) json_data # rest)"
    by (rule query_sequence_first_call [OF assms(2)])
next
  show "results \<noteq> [] \<longrightarrow> jq_cmd query (Some results) \<noteq> jq_cmd query (Some [])"
    using jq_cmd_variables_differ by blast
qed

theorem query_sequence_threads_results_witness:
  "query_sequence example_env example_json
     [(ustr ''version'', Some (ustr ''.v'')), (ustr ''url'', Some (ustr ''.u''))] [] =
     (Inr [(ustr ''version'', ustr ''1.2.3''), (ustr ''url'', ustr ''https://x/1.2.3.tgz'')],
      [Run (jq_cmd (ustr ''.v'') (Some [])) example_json,
       Run (jq_cmd (ustr ''.u'') (Some [(ustr ''version'', ustr ''1.2.3'')])) example_json])
   \<and> sublist [ustr ''--arg'', ustr ''version'', ustr ''1.2.3'']
        (jq_cmd (ustr ''.u'') (Some [(ustr ''version'', ustr ''1.2.3'')]))
   \<and> jq_cmd (ustr ''.u'') (Some [(ustr ''version'', ustr ''1.2.3'')])
        \<noteq> jq_cmd (ustr ''.u'') (Some [])"
proof -
  have h1: "query_sequence example_env example_json [(ustr ''version'', Some (ustr ''.v''))] [] =
              (Inr [(ustr ''version'', ustr ''1.2.3'')],
               [Run (jq_cmd (ustr ''.v'') (Some [])) example_json])"
    by code_simp
  have h2: "ustr ''.u'' \<noteq> []"
    by code_simp
  have h3: "query_json example_env (ustr ''.u'') example_json
              (Some [(ustr ''version'', ustr ''1.2.3'')])
              [Run (jq_cmd (ustr ''.v'') (Some [])) example_json] =
            (Inr (ustr ''https://x/1.2.3.tgz''),
             [Run (jq_cmd (ustr ''.v'') (Some [])) example_json,
              Run (jq_cmd (ustr ''.u'') (Some [(ustr ''version'', ustr ''1.2.3'')])) example_json])"
    by code_simp
  have h4: "AList.update (ustr ''url'') (ustr ''https://x/1.2.3.tgz'')
              [(ustr ''version'', ustr ''1.2.3'')] =
            [(ustr ''version'', ustr ''1.2.3''), (ustr ''url'', ustr ''https://x/1.2.3.tgz'')]"
    by code_simp
  show ?thesis
    using query_sequence_threads_results [OF h1 h2, of "ustr ''url''" "[]"] h3 h4
    by simp
qed

section \<open>Skipped entries\<close>

lemma loop_run_count:
  "query_sequence_loop env d plan results t = (Inr results', t') \<Longrightarrow>
   length t' = length t + length [p \<leftarrow> plan. snd p \<noteq> None \<and> snd p \<noteq> Some []]"
proof (induction env d plan results t rule: query_sequence_loop.induct)
  case (1 env json_data results t)
  then show ?case by simp
next
  case (2 env json_data result_key queries results t)
  then show ?case by simp
next
  case (3 env json_data result_key query queries results t)
  show ?case
  proof (cases "query = []")
    case True
    with 3 show ?thesis by simp
  next
    case False
    obtain r1 t1 where qj: "query_json env query json_data (Some results) t = (r1, t1)"
      by (cases "query_json env query json_data (Some results) t")
    then have t1: "t1 = t @ [Run (jq_cmd query (Some results)) json_data]"
      using query_json_trace [of env query json_data "Some results" t] by simp
    from 3(3) False qj obtain v where r1: "r1 = Inr v"
      by (cases r1) auto
    with 3(3) False qj have
      "query_sequence_loop env json_data queries (AList.update result_key v results) t1 =
         (Inr results', t')"
      by simp
    from 3(2) [OF False qj [symmetric] r1 this] t1 False show ?thesis by simp
  qed
qed

lemma query_sequence_erase:
  assumes "query = None \<or> query = Some []"
  shows "query_sequence env d (pre @ (k, query) # post) t = query_sequence env d (pre @ post) t"
proof -
  have "query_sequence_loop env d ((k, query) # post) r t' = query_sequence_loop env d post r t'"
    for r t'
    using assms by auto
  then show ?thesis
    by (simp add: query_sequence_def loop_append split: prod.splits sum.splits)
qed

text \<open>
  Claim C2, as amended. An entry whose query is absent or empty is skipped entirely: the
  resolver returns the same result with the same trace as for the plan without that entry,
  so the evaluator is never invoked for it and it stores nothing. When the plan succeeds,
  the key of the skipped entry is in the produced mapping exactly when another entry with
  the same key has a non-empty query (never, when the keys of the plan are distinct), and
  the evaluator has been invoked once for each entry with a non-empty query.
\<close>

theorem query_sequence_skips_unset:
  assumes "query = None \<or> query = Some []"
  shows "query_sequence env json_data (pre @ (result_key, query) # post) t =
           query_sequence env json_data (pre @ post) t
       \<and> (\<forall>results t'.
             query_sequence env json_data (pre @ (result_key, query) # post) t = (Inr results, t')
             \<longrightarrow> (map_of results result_key \<noteq> None
                    \<longleftrightarrow> (\<exists>q. (result_key, Some q) \<in> set (pre @ post) \<and> q \<noteq> []))
                 \<and> length t' =
                     length t + length [p \<leftarrow> pre @ post. snd p \<noteq> None \<and> snd p \<noteq> Some []])"
proof (intro conjI allI impI)
  show e: "query_sequence env json_data (pre @ (result_key, query) # post) t =
           query_sequence env json_data (pre @ post) t"
    by (rule query_sequence_erase [OF assms])
  fix results t'
  assume "query_sequence env json_data (pre @ (result_key, query) # post) t = (Inr results, t')"
  with e have l: "query_sequence_loop env json_data (pre @ post) [] t = (Inr results, t')"
    by (simp add: query_sequence_def)
  from loop_keys [OF l] have
    "fst ` set results = {k. \<exists>q. (k, Some q) \<in> set (pre @ post) \<and> q \<noteq> []}"
    by simp
  moreover have "map_of results result_key \<noteq> None \<longleftrightarrow> result_key \<in> fst ` set results"
    by (simp add: map_of_eq_None_iff)
  ultimately show "map_of results result_key \<noteq> None
                    \<longleftrightarrow> (\<exists>q. (result_key, Some q) \<in> set (pre @ post) \<and> q \<noteq> [])"
    by blast
  show "length t' = length t + length [p \<leftarrow> pre @ post. snd p \<noteq> None \<and> snd p \<noteq> Some []]"
    by (rule loop_run_count [OF l])
qed

theorem query_sequence_skips_unset_witness:
  "query_sequence example_env example_json
     [(ustr ''tag'', None), (ustr ''version'', Some (ustr ''.v''))] [] =
   (Inr [(ustr ''version'', ustr ''1.2.3'')], [Run (jq_cmd (ustr ''.v'') (Some [])) example_json])"
proof -
  have h: "(None :: str option) = None \<or> (None :: str option) = Some []"
    by simp
  have e: "query_sequence example_env example_json [(ustr ''version'', Some (ustr ''.v''))] [] =
             (Inr [(ustr ''version'', ustr ''1.2.3'')],
              [Run (jq_cmd (ustr ''.v'') (Some [])) example_json])"
    by code_simp
  show ?thesis
    using query_sequence_skips_unset [OF h, of example_env example_json "[]" "ustr ''tag''"
        "[(ustr ''version'', Some (ustr ''.v''))]" "[]"] e
    by simp
qed

text \<open>
  The claim as stated fails where a key occurs twice: the second entry of the plan below
  has no query, and its key is in the produced mapping all the same.
\<close>

theorem skipped_key_in_mapping_counterexample:
  "(ustr ''a'', None) \<in> set [(ustr ''a'', Some (ustr ''.v'')), (ustr ''a'', None)]
   \<and> fst (query_sequence example_env example_json
            [(ustr ''a'', Some (ustr ''.v'')), (ustr ''a'', None)] []) =
       Inr [(ustr ''a'', ustr ''1.2.3'')]
   \<and> map_of [(ustr ''a'', ustr ''1.2.3'')] (ustr ''a'') = Some (ustr ''1.2.3'')"
  by code_simp

section \<open>The Timestamp Normalizer: properties\<close>

lemma re_sub_Z_end_Z: "re_sub_Z_end repl (s @ ustr ''Z'') = s @ repl"
  by (simp add: re_sub_Z_end_def ustr_def)

lemma re_sub_Z_end_offset: "re_sub_Z_end repl (s @ ustr ''+00:00'') = s @ ustr ''+00:00''"
  by (simp add: re_sub_Z_end_def ustr_def)

text \<open>
  Claim C6. An absent date string gives an absent timestamp and no error. A final \<open>Z\<close> is
  rewritten to \<open>+00:00\<close> before the parse, so a string ending in \<open>Z\<close> is parsed as the same
  string ending in \<open>+00:00\<close>, for the date of the spec in particular. What the parser
  accepts is returned; what it rejects with \<open>ValueError\<close> is reported as
  \<open>CheckerQueryError\<close>.
\<close>

theorem parse_timestamp_normalizes:
  "parse_timestamp env None = Inr None
   \<and> re_sub_Z_end (ustr ''+00:00'') (s @ ustr ''Z'') = s @ ustr ''+00:00''
   \<and> parse_timestamp env (Some (s @ ustr ''Z'')) = parse_timestamp env (Some (s @ ustr ''+00:00''))
   \<and> parse_timestamp env (Some (ustr ''2023-05-01T00:00:00Z'')) =
       parse_timestamp env (Some (ustr ''2023-05-01T00:00:00+00:00''))
   \<and> (\<forall>d. fromisoformat env (re_sub_Z_end (ustr ''+00:00'') date_string) = Some d
          \<longrightarrow> parse_timestamp env (Some date_string) = Inr (Some d))
   \<and> (fromisoformat env (re_sub_Z_end (ustr ''+00:00'') date_string) = None
        \<longrightarrow> parse_timestamp env (Some date_string) =
              Inl (CheckerQueryError (Some ''Failed to parse timestamp'') ValueError)
            \<and> is_CheckerQueryError
                (CheckerQueryError (Some ''Failed to parse timestamp'') ValueError))"
proof -
  have a: "parse_timestamp env (Some (x @ ustr ''Z'')) =
           parse_timestamp env (Some (x @ ustr ''+00:00''))" for x
    by (simp add: parse_timestamp_def re_sub_Z_end_Z re_sub_Z_end_offset)
  have b: "ustr ''2023-05-01T00:00:00Z'' = ustr ''2023-05-01T00:00:00'' @ ustr ''Z''"
    and c: "ustr ''2023-05-01T00:00:00+00:00'' = ustr ''2023-05-01T00:00:00'' @ ustr ''+00:00''"
    by (simp_all add: ustr_def)
  have d: "parse_timestamp env (Some (ustr ''2023-05-01T00:00:00Z'')) =
       parse_timestamp env (Some (ustr ''2023-05-01T00:00:00+00:00''))"
    unfolding b c by (rule a)
  show ?thesis
    using a [of s] d by (simp add: parse_timestamp_def re_sub_Z_end_Z)
qed


theorem parse_timestamp_normalizes_witness:
  "parse_timestamp example_env (Some (ustr ''2023-05-01T00:00:00Z'')) = Inr (Some 1682899200)
   \<and> parse_timestamp example_env (Some (ustr ''not-a-date'')) =
       Inl (CheckerQueryError (Some ''Failed to parse timestamp'') ValueError)"
proof -
  have h1: "fromisoformat example_env
              (re_sub_Z_end (ustr ''+00:00'') (ustr ''2023-05-01T00:00:00Z'')) = Some 1682899200"
    by code_simp
  have h2: "fromisoformat example_env (re_sub_Z_end (ustr ''+00:00'') (ustr ''not-a-date'')) = None"
    by code_simp
  from parse_timestamp_normalizes [of example_env "[]" "ustr ''2023-05-01T00:00:00Z''"] h1
  have "parse_timestamp example_env (Some (ustr ''2023-05-01T00:00:00Z'')) = Inr (Some 1682899200)"
    by blast
  moreover from parse_timestamp_normalizes [of example_env "[]" "ustr ''not-a-date''"] h2
  have "parse_timestamp example_env (Some (ustr ''not-a-date'')) =
       Inl (CheckerQueryError (Some ''Failed to parse timestamp'') ValueError)"
    by blast
  ultimately show ?thesis by (rule conjI)
qed

section \<open>The Query Evaluator: properties\<close>

lemma strip_decomp:
  "\<exists>a b. s = a @ strip s @ b \<and> (\<forall>c \<in> set a. isspace c) \<and> (\<forall>c \<in> set b. isspace c)"
proof -
  define s1 where "s1 = dropWhile isspace s"
  define a where "a = takeWhile isspace s"
  define b where "b = rev (takeWhile isspace (rev s1))"
  have "s1 = rev (rev s1)"
    by simp
  also have "\<dots> = rev (takeWhile isspace (rev s1) @ dropWhile isspace (rev s1))"
    by (simp only: takeWhile_dropWhile_id)
  also have "\<dots> = rev (dropWhile isspace (rev s1)) @ rev (takeWhile isspace (rev s1))"
    by (simp only: rev_append)
  finally have "s1 = strip s @ b"
    by (simp only: strip_def s1_def b_def)
  moreover have "s = a @ s1"
    by (simp add: a_def s1_def)
  ultimately have "s = a @ strip s @ b" by simp
  moreover have "\<forall>c \<in> set a. isspace c"
    unfolding a_def by (meson set_takeWhileD)
  moreover have "\<forall>c \<in> set b. isspace c"
    unfolding b_def by (metis set_rev set_takeWhileD)
  ultimately show ?thesis by blast
qed

lemma strip_ends:
  assumes "strip s \<noteq> []"
  shows "\<not> isspace (hd (strip s)) \<and> \<not> isspace (last (strip s))"
proof -
  define s1 where "s1 = dropWhile isspace s"
  define r where "r = dropWhile isspace (rev s1)"
  have st: "strip s = rev r"
    by (simp add: strip_def s1_def r_def)
  with assms have rne: "r \<noteq> []" by simp
  then have "\<not> isspace (hd r)"
    unfolding r_def by (rule hd_dropWhile)
  then have l: "\<not> isspace (last (strip s))"
    using rne by (simp add: st last_rev)
  have "s1 = rev (rev s1)"
    by simp
  also have "\<dots> = rev (takeWhile isspace (rev s1) @ dropWhile isspace (rev s1))"
    by (simp only: takeWhile_dropWhile_id)
  also have "\<dots> = rev (dropWhile isspace (rev s1)) @ rev (takeWhile isspace (rev s1))"
    by (simp only: rev_append)
  finally have s1: "s1 = rev r @ rev (takeWhile isspace (rev s1))"
    by (simp only: r_def)
  with rne have "s1 \<noteq> []" by auto
  then have "\<not> isspace (hd s1)"
    unfolding s1_def by (rule hd_dropWhile)
  moreover from s1 rne have "hd s1 = hd (rev r)"
    by (metis hd_append2 rev_is_Nil_conv)
  ultimately show ?thesis using l st by simp
qed

lemma query_json_failure:
  assumes "process env t (jq_cmd query variables) data = Inr (returncode, out, err)"
    and "returncode \<noteq> 0"
  shows "query_json env query data variables t =
           (Inl (CheckerQueryError (Some ''Error running jq'') (CalledProcessError returncode)),
            t @ [Run (jq_cmd query variables) data])"
  using assms by (simp add: query_json_def Command_run_def)

lemma query_json_success:
  assumes "process env t (jq_cmd query variables) data = Inr (0, out, err)"
    and "decode out = Some s"
  shows "query_json env query data variables t =
           (Inr (strip s), t @ [Run (jq_cmd query variables) data])"
  using assms by (simp add: query_json_def Command_run_def)

text \<open>
  Claim C4. The evaluator pastes the query into the program text as it is, between
  \<open>( \<close> and \<open> ) | ( post-filter )\<close>, on one line. For the query \<open>.b ) #\<close> the program is
  \<open>( .b ) # ) | ( post-filter )\<close>: it has no newline, so the post-filter lies behind the
  \<open>#\<close> in a comment, and what is left to read is \<open>( .b ) \<close>. On a document whose \<open>b\<close> is
  \<open>true\<close>, a process that reads the program so prints the boolean with exit status 0, and
  the evaluator returns \<open>true\<close> as its result, where the claim has every query with a
  boolean result fail.
\<close>

theorem query_json_post_filter_cut_off:
  "last (jq_cmd (ustr ''.b ) #'') None) =
     ustr ''( .b ) # ) | ( .|type as $rt | if $rt=='' @ [34] @ ustr ''string'' @ [34]
       @ ustr '' or $rt=='' @ [34] @ ustr ''number'' @ [34]
       @ ustr '' then . else error($rt) end )''
   \<and> 10 \<notin> set (last (jq_cmd (ustr ''.b ) #'') None))
   \<and> before_comment (last (jq_cmd (ustr ''.b ) #'') None)) = ustr ''( .b ) ''
   \<and> query_json comment_env (ustr ''.b ) #'') bool_json None [] =
       (Inr (ustr ''true''), [Run (jq_cmd (ustr ''.b ) #'') None) bool_json])"
  by code_simp

section \<open>Failure of the fetch\<close>

text \<open>
  Claim C7. Let the record be eligible and its configuration name the URL, so that the
  GET is made, and let the GET raise one of the transport errors. Then \<open>check\<close> fails with
  \<open>CheckerQueryError\<close> raised from that error, and the GET is the only call it has made:
  no query has been evaluated and no mapping built.
\<close>

theorem check_fetch_failure:
  assumes "should_check env external_data"
    and "map_of (checker_data external_data) (ustr ''url'') = Some json_url"
    and "session_get env t json_url = Inl err"
    and "NETWORK_ERRORS env err"
  shows "check env external_data t = (Inl (CheckerQueryError None err), t @ [HttpGet json_url])
       \<and> is_CheckerQueryError (CheckerQueryError None err)
       \<and> (\<forall>argv d. Run argv d \<in> set (snd (check env external_data t)) \<longrightarrow> Run argv d \<in> set t)"
  using assms by (simp add: check_def)

theorem check_fetch_failure_witness:
  "check offline_env (ExternalData plain_config) [] =
     (Inl (CheckerQueryError None (OtherError ''ClientError'')),
      [HttpGet (ustr ''https://x/v.json'')])"
proof -
  have h1: "should_check offline_env (ExternalData plain_config)"
    by code_simp
  have h2: "map_of (checker_data (ExternalData plain_config :: int external_data)) (ustr ''url'') =
              Some (ustr ''https://x/v.json'')"
    by code_simp
  have h3: "session_get offline_env [] (ustr ''https://x/v.json'') =
              Inl (OtherError ''ClientError'')"
    by code_simp
  have h4: "NETWORK_ERRORS offline_env (OtherError ''ClientError'')"
    by code_simp
  show ?thesis
    using check_fetch_failure [OF h1 h2 h3 h4] by simp
qed

section \<open>The eligibility assertion\<close>

lemma check_data_trace: "\<exists>rs. snd (check_data env d cd t) = t @ rs"
proof -
  have q: "\<exists>rs. t' = t @ rs" if "query_sequence env d plan t = (r, t')" for plan r t'
    using loop_trace_runs [of env d plan "[]" t r t'] that
    by (auto simp: query_sequence_def)
  show ?thesis
    unfolding check_data_def
    by (auto split: option.splits prod.splits sum.splits dest!: q)
qed

lemma check_git_trace: "\<exists>rs. snd (check_git env d cd cur t) = t @ rs"
proof -
  have q: "\<exists>rs. t' = t @ rs" if "query_sequence env d plan t = (r, t')" for plan r t'
    using loop_trace_runs [of env d plan "[]" t r t'] that
    by (auto simp: query_sequence_def)
  show ?thesis
    unfolding check_git_def Let_def
    by (auto split: option.splits prod.splits sum.splits dest!: q)
qed

lemma check_first_event:
  assumes "should_check env external_data"
    and "map_of (checker_data external_data) (ustr ''url'') = Some json_url"
  shows "\<exists>r rest. check env external_data t = (r, t @ HttpGet json_url # rest)"
proof (cases "session_get env t json_url")
  case (Inl err)
  with assms show ?thesis by (simp add: check_def)
next
  case (Inr json_data)
  show ?thesis
  proof (cases external_data)
    case (ExternalData cd)
    obtain r t' where c: "check_data env json_data cd (t @ [HttpGet json_url]) = (r, t')"
      by (cases "check_data env json_data cd (t @ [HttpGet json_url])")
    obtain rs where "snd (check_data env json_data cd (t @ [HttpGet json_url])) =
        (t @ [HttpGet json_url]) @ rs"
      using check_data_trace by blast
    with c have "t' = t @ HttpGet json_url # rs" by simp
    with c assms Inr ExternalData have
      "check env external_data t = (r, t @ HttpGet json_url # rs)"
      by (simp add: check_def)
    then show ?thesis by blast
  next
    case (ExternalGitRepo cd cur)
    obtain r t' where c: "check_git env json_data cd cur (t @ [HttpGet json_url]) = (r, t')"
      by (cases "check_git env json_data cd cur (t @ [HttpGet json_url])")
    obtain rs where "snd (check_git env json_data cd cur (t @ [HttpGet json_url])) =
        (t @ [HttpGet json_url]) @ rs"
      using check_git_trace by blast
    with c have "t' = t @ HttpGet json_url # rs" by simp
    with c assms Inr ExternalGitRepo have
      "check env external_data t = (r, t @ HttpGet json_url # rs)"
      by (simp add: check_def)
    then show ?thesis by blast
  qed
qed

lemma check_env_cong:
  assumes "should_check env external_data"
  shows "check env external_data t = check (env\<lparr>should_check := (\<lambda>_. True)\<rparr>) external_data t"
proof -
  have 1: "query_json (env\<lparr>should_check := f\<rparr>) q d vs t' = query_json env q d vs t'"
    for f q d vs t'
    by (simp add: query_json_def Command_run_def)
  have 2: "query_sequence_loop (env\<lparr>should_check := f\<rparr>) d plan r t' =
           query_sequence_loop env d plan r t'" for f d plan r t'
  proof (induction plan arbitrary: r t')
    case Nil
    show ?case by simp
  next
    case (Cons p plan)
    obtain k q where p: "p = (k, q)" by (cases p)
    show ?case
    proof (cases q)
      case None
      with Cons p show ?thesis by simp
    next
      case (Some query)
      with Cons p show ?thesis by (simp add: 1 split: prod.splits sum.splits)
    qed
  qed
  have 3: "query_sequence (env\<lparr>should_check := f\<rparr>) d plan t' = query_sequence env d plan t'"
    for f d plan t'
    by (simp add: query_sequence_def 2)
  have 4: "check_data (env\<lparr>should_check := f\<rparr>) d cd t' = check_data env d cd t'" for f d cd t'
    by (simp add: check_data_def 3 split: option.splits prod.splits sum.splits)
  have 5: "check_git (env\<lparr>should_check := f\<rparr>) d cd cur t' = check_git env d cd cur t'"
    for f d cd cur t'
    by (simp add: check_git_def 3 parse_timestamp_def Let_def
          split: option.splits prod.splits sum.splits)
  show ?thesis
    using assms
    by (simp add: check_def 4 5 split: option.splits sum.splits external_data.splits)
qed

text \<open>
  Claim C9. On a record that is not eligible \<open>check\<close> fails with \<open>AssertionError\<close>, which
  is not a \<open>CheckerQueryError\<close>, and makes no call; nothing in \<open>check\<close> catches it. On an
  eligible record the assertion is invisible: the run is the run of a checker whose
  eligibility test always holds, and when the configuration names the URL the first call
  made is the GET.
\<close>

theorem check_asserts_eligibility:
  "(\<not> should_check env external_data \<longrightarrow>
      check env external_data t = (Inl AssertionError, t)
      \<and> \<not> is_CheckerQueryError AssertionError)
   \<and> (should_check env external_data \<longrightarrow>
        check env external_data t =
          check (env\<lparr>should_check := (\<lambda>_. True)\<rparr>) external_data t
        \<and> (\<forall>json_url. map_of (checker_data external_data) (ustr ''url'') = Some json_url
              \<longrightarrow> (\<exists>r rest. check env external_data t = (r, t @ HttpGet json_url # rest))))"
proof (intro conjI impI allI)
  assume "\<not> should_check env external_data"
  then show "check env external_data t = (Inl AssertionError, t)"
    by (simp add: check_def)
next
  show "\<not> is_CheckerQueryError AssertionError" by simp
next
  assume "should_check env external_data"
  then show "check env external_data t =
          check (env\<lparr>should_check := (\<lambda>_. True)\<rparr>) external_data t"
    by (rule check_env_cong)
next
  fix json_url
  assume "should_check env external_data"
    and "map_of (checker_data external_data) (ustr ''url'') = Some json_url"
  then show "\<exists>r rest. check env external_data t = (r, t @ HttpGet json_url # rest)"
    by (rule check_first_event)
qed

theorem check_asserts_eligibility_witness:
  "check ineligible_env (ExternalData plain_config) [] = (Inl AssertionError, [])
   \<and> (\<exists>r rest. check example_env (ExternalData plain_config) [] =
         (r, [] @ HttpGet (ustr ''https://x/v.json'') # rest))"
proof -
  have h1: "\<not> should_check ineligible_env (ExternalData plain_config)"
    by code_simp
  have h2: "should_check example_env (ExternalData plain_config)"
    by code_simp
  have h3: "map_of (checker_data (ExternalData plain_config :: int external_data)) (ustr ''url'') =
              Some (ustr ''https://x/v.json'')"
    by code_simp
  from check_asserts_eligibility [of ineligible_env "ExternalData plain_config" "[]"] h1
  have "check ineligible_env (ExternalData plain_config) [] = (Inl AssertionError, [])"
    by blast
  moreover from check_asserts_eligibility [of example_env "ExternalData plain_config" "[]"] h2 h3
  have "\<exists>r rest. check example_env (ExternalData plain_config) [] =
         (r, [] @ HttpGet (ustr ''https://x/v.json'') # rest)"
    by blast
  ultimately show ?thesis by (rule conjI)
qed

section \<open>The mandatory queries of the plain flow\<close>

text \<open>
  Claim C10. When the configuration of a plain record lacks \<open>version-query\<close> or
  \<open>url-query\<close>, the plain flow fails with \<open>KeyError\<close> on the first of the two that is
  missing. A \<open>KeyError\<close> is no \<open>CheckerQueryError\<close>, and the trace is unchanged: the error
  comes before any query and before the handoff. The schema permits such a configuration:
  one with a URL and a tag query only is valid. Seen from \<open>check\<close>, the GET is the only
  call made.
\<close>

theorem check_data_missing_query_key:
  assumes "map_of cd (ustr ''version-query'') = None \<or> map_of cd (ustr ''url-query'') = None"
  shows "check_data env json_data cd t =
           (Inl (KeyError (if map_of cd (ustr ''version-query'') = None
                           then ustr ''version-query'' else ustr ''url-query'')), t)
       \<and> (\<forall>k. \<not> is_CheckerQueryError (KeyError k))
       \<and> CHECKER_DATA_SCHEMA [(ustr ''url'', u), (ustr ''tag-query'', q)]
       \<and> map_of [(ustr ''url'', u), (ustr ''tag-query'', q)] (ustr ''version-query'') = None
       \<and> (\<forall>json_url d. should_check env (ExternalData cd)
              \<and> map_of cd (ustr ''url'') = Some json_url \<and> session_get env t json_url = Inr d
            \<longrightarrow> check env (ExternalData cd) t =
                  (Inl (KeyError (if map_of cd (ustr ''version-query'') = None
                                  then ustr ''version-query'' else ustr ''url-query'')),
                   t @ [HttpGet json_url]))"
proof -
  have a: "check_data env d cd t' =
           (Inl (KeyError (if map_of cd (ustr ''version-query'') = None
                           then ustr ''version-query'' else ustr ''url-query'')), t')" for d t'
    using assms by (auto simp: check_data_def split: option.splits)
  have b: "CHECKER_DATA_SCHEMA [(ustr ''url'', u), (ustr ''tag-query'', q)]"
    by (simp add: CHECKER_DATA_SCHEMA_def ustr_def)
  have c: "map_of [(ustr ''url'', u), (ustr ''tag-query'', q)] (ustr ''version-query'') = None"
    by (simp add: ustr_def)
  show ?thesis
    using a b c by (simp add: check_def)
qed

theorem check_data_missing_query_key_witness:
  "check_data example_env example_json tag_only_config [] =
     (Inl (KeyError (ustr ''version-query'')), [])
   \<and> CHECKER_DATA_SCHEMA tag_only_config"
proof -
  have h: "map_of tag_only_config (ustr ''version-query'') = None
           \<or> map_of tag_only_config (ustr ''url-query'') = None"
    by code_simp
  have v: "map_of tag_only_config (ustr ''version-query'') = None"
    by code_simp
  have s: "tag_only_config = [(ustr ''url'', ustr ''https://x/v.json''), (ustr ''tag-query'', ustr ''.t'')]"
    by (simp add: tag_only_config_def)
  show ?thesis
    using check_data_missing_query_key [OF h, of example_env example_json "[]"
        "ustr ''https://x/v.json''" "ustr ''.t''"] v s
    by simp
qed

section \<open>The plain-artifact flow\<close>

lemma query_sequence_runs_only:
  assumes "query_sequence env d plan t = (r, t')"
  shows "\<exists>rs. t' = t @ rs \<and> (\<forall>e \<in> set rs. \<exists>argv. e = Run argv d)"
  using assms loop_trace_runs [of env d plan "[]" t r t'] by (simp add: query_sequence_def)

lemma query_sequence_key_present:
  assumes "query_sequence env d plan t = (Inr results, t')"
    and "(k, Some q) \<in> set plan" and "q \<noteq> []"
  shows "\<exists>v. map_of results k = Some v"
proof -
  from assms(1) have "query_sequence_loop env d plan [] t = (Inr results, t')"
    by (simp add: query_sequence_def)
  from loop_keys [OF this] assms(2,3) have "k \<in> fst ` set results" by auto
  then have "map_of results k \<noteq> None" by (simp add: map_of_eq_None_iff)
  then show ?thesis by blast
qed

text \<open>
  Claim C8, as amended. Let the configuration of a plain record have a non-empty
  \<open>version-query\<close> and a non-empty \<open>url-query\<close>, and let the plan succeed with the mapping
  \<open>results\<close>. Then \<open>results\<close> has a \<open>version\<close> and a \<open>url\<close>, and the plain flow makes, after
  the runs of the queries, exactly one more call: the handoff of these two values,
  unchanged, with the redirect flag false. Its outcome is the outcome of the flow.
\<close>

theorem check_data_hands_off:
  assumes "map_of cd (ustr ''version-query'') = Some version_query"
    and "map_of cd (ustr ''url-query'') = Some url_query"
    and "version_query \<noteq> []" and "url_query \<noteq> []"
    and "query_sequence env json_data
           [(ustr ''tag'', map_of cd (ustr ''tag-query'')),
            (ustr ''commit'', map_of cd (ustr ''commit-query'')),
            (ustr ''version'', Some version_query),
            (ustr ''url'', Some url_query)] t = (Inr results, t1)"
  shows "\<exists>latest_version latest_url rs.
           map_of results (ustr ''version'') = Some latest_version
         \<and> map_of results (ustr ''url'') = Some latest_url
         \<and> check_data env json_data cd t =
             (case update_version env t1 (ExternalData cd) latest_version latest_url False of
                Some e \<Rightarrow> Inl e
              | None \<Rightarrow> Inr (),
              t1 @ [UpdateVersion (ExternalData cd) latest_version latest_url False])
         \<and> t1 = t @ rs \<and> (\<forall>e \<in> set rs. \<exists>argv. e = Run argv json_data)"
proof -
  obtain v where v: "map_of results (ustr ''version'') = Some v"
    using query_sequence_key_present [OF assms(5) _ assms(3), of "ustr ''version''"] by auto
  obtain u where u: "map_of results (ustr ''url'') = Some u"
    using query_sequence_key_present [OF assms(5) _ assms(4), of "ustr ''url''"] by auto
  obtain rs where rs: "t1 = t @ rs" "\<forall>e \<in> set rs. \<exists>argv. e = Run argv json_data"
    using query_sequence_runs_only [OF assms(5)] by blast
  have "check_data env json_data cd t =
             (case update_version env t1 (ExternalData cd) v u False of
                Some e \<Rightarrow> Inl e
              | None \<Rightarrow> Inr (),
              t1 @ [UpdateVersion (ExternalData cd) v u False])"
    using assms(1,2,5) v u by (simp add: check_data_def)
  with v u rs show ?thesis by blast
qed

theorem check_data_hands_off_witness:
  "check_data example_env example_json plain_config [] =
     (Inr (),
      [Run (jq_cmd (ustr ''.v'') (Some [])) example_json,
       Run (jq_cmd (ustr ''.u'') (Some [(ustr ''version'', ustr ''1.2.3'')])) example_json,
       UpdateVersion (ExternalData plain_config) (ustr ''1.2.3'') (ustr ''https://x/1.2.3.tgz'')
         False])"
proof -
  let ?results = "[(ustr ''version'', ustr ''1.2.3''), (ustr ''url'', ustr ''https://x/1.2.3.tgz'')]"
  let ?t1 = "[Run (jq_cmd (ustr ''.v'') (Some [])) example_json,
       Run (jq_cmd (ustr ''.u'') (Some [(ustr ''version'', ustr ''1.2.3'')])) example_json]"
  have h1: "map_of plain_config (ustr ''version-query'') = Some (ustr ''.v'')"
    by code_simp
  have h2: "map_of plain_config (ustr ''url-query'') = Some (ustr ''.u'')"
    by code_simp
  have h3: "ustr ''.v'' \<noteq> []" by code_simp
  have h4: "ustr ''.u'' \<noteq> []" by code_simp
  have h5: "query_sequence example_env example_json
           [(ustr ''tag'', map_of plain_config (ustr ''tag-query'')),
            (ustr ''commit'', map_of plain_config (ustr ''commit-query'')),
            (ustr ''version'', Some (ustr ''.v'')),
            (ustr ''url'', Some (ustr ''.u''))] [] = (Inr ?results, ?t1)"
    by code_simp
  have v: "map_of ?results (ustr ''version'') = Some (ustr ''1.2.3'')"
    by code_simp
  have u: "map_of ?results (ustr ''url'') = Some (ustr ''https://x/1.2.3.tgz'')"
    by code_simp
  have upd: "update_version example_env ?t1 (ExternalData plain_config) (ustr ''1.2.3'')
               (ustr ''https://x/1.2.3.tgz'') False = None"
    by (simp add: example_env_def example_update_version_def)
  from check_data_hands_off [OF h1 h2 h3 h4 h5] obtain lv lu where
    a: "map_of ?results (ustr ''version'') = Some lv"
    and b: "map_of ?results (ustr ''url'') = Some lu"
    and c: "check_data example_env example_json plain_config [] =
             (case update_version example_env ?t1 (ExternalData plain_config) lv lu False of
                Some e \<Rightarrow> Inl e
              | None \<Rightarrow> Inr (),
              ?t1 @ [UpdateVersion (ExternalData plain_config) lv lu False])"
    by blast
  from a v have "lv = ustr ''1.2.3''" by simp
  moreover from b u have "lu = ustr ''https://x/1.2.3.tgz''" by simp
  ultimately show ?thesis using c upd by simp
qed

text \<open>
  The claim as stated fails on a configuration, valid for the schema, whose version query
  is the empty string: the entry is skipped, the plan succeeds without a \<open>version\<close>, and
  the flow ends in a \<open>KeyError\<close> with no handoff.
\<close>

theorem empty_version_query_counterexample:
  "CHECKER_DATA_SCHEMA empty_version_config
   \<and> query_sequence example_env example_json
       [(ustr ''tag'', map_of empty_version_config (ustr ''tag-query'')),
        (ustr ''commit'', map_of empty_version_config (ustr ''commit-query'')),
        (ustr ''version'', Some []),
        (ustr ''url'', Some (ustr ''.u''))] [] =
       (Inr [(ustr ''url'', ustr ''https://x/1.2.3.tgz'')],
        [Run (jq_cmd (ustr ''.u'') (Some [])) example_json])
   \<and> check_data example_env example_json empty_version_config [] =
       (Inl (KeyError (ustr ''version'')), [Run (jq_cmd (ustr ''.u'') (Some [])) example_json])"
  by code_simp

section \<open>The git flow\<close>

text \<open>
  Claim C5, as amended. Let the tag query of a git record be non-empty, let the plan
  succeed with the mapping \<open>results\<close>, and let the timestamp of \<open>results\<close>, if there is one,
  parse. Then the version record is built: it has the URL of the current reference, no
  branch, and a tag. If \<open>results\<close> has no \<open>commit\<close>, the remote resolution is called exactly
  once, on that record, right after the runs of the queries; the record it returns is the
  one given to \<open>set_new_version\<close>, and if it raises, the flow fails with its exception and
  nothing is set. If \<open>results\<close> has a \<open>commit\<close>, the record built is given to
  \<open>set_new_version\<close> as it is, and the remote resolution is not called.
\<close>

theorem check_git_resolution:
  assumes "map_of cd (ustr ''tag-query'') = Some tag_query"
    and "tag_query \<noteq> []"
    and "query_sequence env json_data
           [(ustr ''tag'', Some tag_query),
            (ustr ''commit'', map_of cd (ustr ''commit-query'')),
            (ustr ''version'', map_of cd (ustr ''version-query'')),
            (ustr ''timestamp'', map_of cd (ustr ''timestamp-query''))] t = (Inr results, t1)"
    and "parse_timestamp env (map_of results (ustr ''timestamp'')) = Inr ts"
    and "new_version =
           \<lparr>url = url cur, commit = map_of results (ustr ''commit''),
            tag = map_of results (ustr ''tag''), branch = None,
            version = map_of results (ustr ''version''), timestamp = ts\<rparr>"
  shows "url new_version = url cur \<and> branch new_version = None \<and> tag new_version \<noteq> None
       \<and> (map_of results (ustr ''commit'') = None \<longrightarrow>
            (\<forall>fetched. fetch_remote env t1 new_version = Inr fetched \<longrightarrow>
               check_git env json_data cd cur t =
                 (case set_new_version env (t1 @ [FetchRemote new_version])
                         (ExternalGitRepo cd cur) fetched of
                    Some e \<Rightarrow> Inl e
                  | None \<Rightarrow> Inr (),
                  t1 @ [FetchRemote new_version, SetNewVersion (ExternalGitRepo cd cur) fetched]))
            \<and> (\<forall>e. fetch_remote env t1 new_version = Inl e \<longrightarrow>
                 check_git env json_data cd cur t = (Inl e, t1 @ [FetchRemote new_version])))
       \<and> (map_of results (ustr ''commit'') \<noteq> None \<longrightarrow>
            check_git env json_data cd cur t =
              (case set_new_version env t1 (ExternalGitRepo cd cur) new_version of
                 Some e \<Rightarrow> Inl e
               | None \<Rightarrow> Inr (),
               t1 @ [SetNewVersion (ExternalGitRepo cd cur) new_version]))
       \<and> (\<exists>rs. t1 = t @ rs \<and> (\<forall>e \<in> set rs. \<exists>argv. e = Run argv json_data))"
proof -
  obtain tg where tg: "map_of results (ustr ''tag'') = Some tg"
    using query_sequence_key_present [OF assms(3) _ assms(2), of "ustr ''tag''"] by auto
  have nv: "new_version =
           \<lparr>url = url cur, commit = map_of results (ustr ''commit''), tag = Some tg,
            branch = None, version = map_of results (ustr ''version''), timestamp = ts\<rparr>"
    using assms(5) tg by simp
  have basic: "url new_version = url cur \<and> branch new_version = None \<and> tag new_version \<noteq> None"
    using nv by simp
  have absent: "check_git env json_data cd cur t =
                 (case set_new_version env (t1 @ [FetchRemote new_version])
                         (ExternalGitRepo cd cur) fetched of
                    Some e \<Rightarrow> Inl e
                  | None \<Rightarrow> Inr (),
                  t1 @ [FetchRemote new_version, SetNewVersion (ExternalGitRepo cd cur) fetched])"
    if "map_of results (ustr ''commit'') = None" "fetch_remote env t1 new_version = Inr fetched"
    for fetched
    using that assms(1,3,4) tg nv by (simp add: check_git_def Let_def)
  have absent_fail: "check_git env json_data cd cur t = (Inl e, t1 @ [FetchRemote new_version])"
    if "map_of results (ustr ''commit'') = None" "fetch_remote env t1 new_version = Inl e" for e
    using that assms(1,3,4) tg nv by (simp add: check_git_def Let_def)
  have present: "check_git env json_data cd cur t =
              (case set_new_version env t1 (ExternalGitRepo cd cur) new_version of
                 Some e \<Rightarrow> Inl e
               | None \<Rightarrow> Inr (),
               t1 @ [SetNewVersion (ExternalGitRepo cd cur) new_version])"
    if "map_of results (ustr ''commit'') \<noteq> None"
    using that assms(1,3,4) tg nv by (auto simp: check_git_def Let_def)
  have runs: "\<exists>rs. t1 = t @ rs \<and> (\<forall>e \<in> set rs. \<exists>argv. e = Run argv json_data)"
    by (rule query_sequence_runs_only [OF assms(3)])
  from basic absent absent_fail present runs show ?thesis by blast
qed

text \<open>
  The claim as stated fails where the plan succeeds and the timestamp it produced does not
  parse: there is no \<open>commit\<close> in the mapping, and the flow ends in \<open>CheckerQueryError\<close>
  with no call of the remote resolution.
\<close>

theorem malformed_timestamp_counterexample:
  "query_sequence example_env example_json
     [(ustr ''tag'', Some (ustr ''.t'')),
      (ustr ''commit'', map_of git_bad_timestamp_config (ustr ''commit-query'')),
      (ustr ''version'', map_of git_bad_timestamp_config (ustr ''version-query'')),
      (ustr ''timestamp'', map_of git_bad_timestamp_config (ustr ''timestamp-query''))] [] =
     (Inr [(ustr ''tag'', ustr ''v2.0''), (ustr ''timestamp'', ustr ''not-a-date'')],
      [Run (jq_cmd (ustr ''.t'') (Some [])) example_json,
       Run (jq_cmd (ustr ''.n'') (Some [(ustr ''tag'', ustr ''v2.0'')])) example_json])
   \<and> map_of [(ustr ''tag'', ustr ''v2.0''), (ustr ''timestamp'', ustr ''not-a-date'')]
        (ustr ''commit'') = None
   \<and> check_git example_env example_json git_bad_timestamp_config example_ref [] =
       (Inl (CheckerQueryError (Some ''Failed to parse timestamp'') ValueError),
        [Run (jq_cmd (ustr ''.t'') (Some [])) example_json,
         Run (jq_cmd (ustr ''.n'') (Some [(ustr ''tag'', ustr ''v2.0'')])) example_json])"
  by code_simp

theorem check_git_resolution_witness:
  "check_git example_env example_json git_tag_config example_ref [] =
     (Inr (),
      [Run (jq_cmd (ustr ''.t'') (Some [])) example_json,
       FetchRemote
         \<lparr>url = ustr ''https://g/r.git'', commit = None, tag = Some (ustr ''v2.0''),
          branch = None, version = None, timestamp = None\<rparr>,
       SetNewVersion (ExternalGitRepo git_tag_config example_ref)
         \<lparr>url = ustr ''https://g/r.git'', commit = Some (ustr ''abcd1234''),
          tag = Some (ustr ''v2.0''), branch = None, version = None, timestamp = None\<rparr>])
   \<and> check_git example_env example_json git_commit_config example_ref [] =
       (Inr (),
        [Run (jq_cmd (ustr ''.t'') (Some [])) example_json,
         Run (jq_cmd (ustr ''.c'') (Some [(ustr ''tag'', ustr ''v2.0'')])) example_json,
         SetNewVersion (ExternalGitRepo git_commit_config example_ref)
           \<lparr>url = ustr ''https://g/r.git'', commit = Some (ustr ''abcd1234''),
            tag = Some (ustr ''v2.0''), branch = None, version = None, timestamp = None\<rparr>])"
proof -
  let ?r1 = "[(ustr ''tag'', ustr ''v2.0'')]"
  let ?t1 = "[Run (jq_cmd (ustr ''.t'') (Some [])) example_json] :: int trace"
  let ?nv1 = "\<lparr>url = ustr ''https://g/r.git'', commit = None, tag = Some (ustr ''v2.0''),
          branch = None, version = None, timestamp = None :: int option\<rparr>"
  let ?r2 = "[(ustr ''tag'', ustr ''v2.0''), (ustr ''commit'', ustr ''abcd1234'')]"
  let ?t2 = "[Run (jq_cmd (ustr ''.t'') (Some [])) example_json,
         Run (jq_cmd (ustr ''.c'') (Some [(ustr ''tag'', ustr ''v2.0'')])) example_json] :: int trace"
  let ?nv2 = "\<lparr>url = ustr ''https://g/r.git'', commit = Some (ustr ''abcd1234''),
          tag = Some (ustr ''v2.0''), branch = None, version = None, timestamp = None :: int option\<rparr>"
  have q: "ustr ''.t'' \<noteq> []" by code_simp
  have a1: "map_of git_tag_config (ustr ''tag-query'') = Some (ustr ''.t'')" by code_simp
  have a3: "query_sequence example_env example_json
           [(ustr ''tag'', Some (ustr ''.t'')),
            (ustr ''commit'', map_of git_tag_config (ustr ''commit-query'')),
            (ustr ''version'', map_of git_tag_config (ustr ''version-query'')),
            (ustr ''timestamp'', map_of git_tag_config (ustr ''timestamp-query''))] [] =
           (Inr ?r1, ?t1)"
    by code_simp
  have a4: "parse_timestamp example_env (map_of ?r1 (ustr ''timestamp'')) = Inr None"
    by code_simp
  have a5: "?nv1 = \<lparr>url = url example_ref, commit = map_of ?r1 (ustr ''commit''),
            tag = map_of ?r1 (ustr ''tag''), branch = None,
            version = map_of ?r1 (ustr ''version''), timestamp = None\<rparr>"
    by code_simp
  have a6: "map_of ?r1 (ustr ''commit'') = None" by code_simp
  have a7: "fetch_remote example_env ?t1 ?nv1 = Inr ?nv2"
    by code_simp
  have a8: "set_new_version example_env (?t1 @ [FetchRemote ?nv1])
              (ExternalGitRepo git_tag_config example_ref) ?nv2 = None"
    by (simp add: example_env_def example_set_new_version_def)
  have b1: "map_of git_commit_config (ustr ''tag-query'') = Some (ustr ''.t'')" by code_simp
  have b3: "query_sequence example_env example_json
           [(ustr ''tag'', Some (ustr ''.t'')),
            (ustr ''commit'', map_of git_commit_config (ustr ''commit-query'')),
            (ustr ''version'', map_of git_commit_config (ustr ''version-query'')),
            (ustr ''timestamp'', map_of git_commit_config (ustr ''timestamp-query''))] [] =
           (Inr ?r2, ?t2)"
    by code_simp
  have b4: "parse_timestamp example_env (map_of ?r2 (ustr ''timestamp'')) = Inr None"
    by code_simp
  have b5: "?nv2 = \<lparr>url = url example_ref, commit = map_of ?r2 (ustr ''commit''),
            tag = map_of ?r2 (ustr ''tag''), branch = None,
            version = map_of ?r2 (ustr ''version''), timestamp = None\<rparr>"
    by code_simp
  have b6: "map_of ?r2 (ustr ''commit'') \<noteq> None" by code_simp
  have b8: "set_new_version example_env ?t2
              (ExternalGitRepo git_commit_config example_ref) ?nv2 = None"
    by (simp add: example_env_def example_set_new_version_def)
  from check_git_resolution [OF a1 q a3 a4 a5] a6 a7 have
    "check_git example_env example_json git_tag_config example_ref [] =
       (case set_new_version example_env (?t1 @ [FetchRemote ?nv1])
               (ExternalGitRepo git_tag_config example_ref) ?nv2 of
          Some e \<Rightarrow> Inl e
        | None \<Rightarrow> Inr (),
        ?t1 @ [FetchRemote ?nv1, SetNewVersion (ExternalGitRepo git_tag_config example_ref) ?nv2])"
    by blast
  with a8 have A: "check_git example_env example_json git_tag_config example_ref [] =
       (Inr (), ?t1 @ [FetchRemote ?nv1,
                       SetNewVersion (ExternalGitRepo git_tag_config example_ref) ?nv2])"
    by simp
  from check_git_resolution [OF b1 q b3 b4 b5] b6 have
    "check_git example_env example_json git_commit_config example_ref [] =
       (case set_new_version example_env ?t2
               (ExternalGitRepo git_commit_config example_ref) ?nv2 of
          Some e \<Rightarrow> Inl e
        | None \<Rightarrow> Inr (),
        ?t2 @ [SetNewVersion (ExternalGitRepo git_commit_config example_ref) ?nv2])"
    by blast
  with b8 have B: "check_git example_env example_json git_commit_config example_ref [] =
       (Inr (), ?t2 @ [SetNewVersion (ExternalGitRepo git_commit_config example_ref) ?nv2])"
    by simp
  from A B show ?thesis by simp
qed

end
